theory Spec2Isabelle
  imports Complex_Main
begin

section \<open>ASRS v1.1 questionnaire scoring (app.py)\<close>

subsection \<open>Data model\<close>

text \<open>
  The values the form stores in the \<open>responses\<close> dictionary: the index chosen on a radio
  widget or a slider (an unbounded Python int), texts (question text, free comments), and
  \<open>None\<close>, which a radio widget without options returns.
\<close>

datatype rval = RInt int | RStr string | RNone

text \<open>The exceptions the modelled code can raise.\<close>

datatype py_error = TypeError | IndexError | KeyError

text \<open>
  The configuration loaded from config.json, restricted to the keys app.py reads; a field
  is \<open>None\<close> when its key is absent from the file. The three questionnaire fields hold
  the list under \<open>['questions']\<close> of each variant.
\<close>

record config =
  seuils_partie_a :: "int list option"
  echelle_likert :: "string list option"
  questionnaire_pre :: "string list option"
  questionnaire_post :: "string list option"
  questionnaire_retrospectif :: "string list option"

text \<open>The dictionary returned by \<open>calculer_score_asrs\<close>, one field per key.\<close>

record score_report =
  score_total :: int
  score_max :: int
  score_partie_a :: int
  score_partie_b :: int
  items_positifs_a :: int
  items_positifs_b :: int
  screening_positif :: bool

subsection \<open>Keys \<open>Q1\<close> .. \<open>Q18\<close>\<close>

text \<open>Python's \<open>str\<close> of a natural number, in decimal.\<close>

definition chiffre :: "nat \<Rightarrow> char" where
  "chiffre d = ''0123456789'' ! d"

fun str_nat :: "nat \<Rightarrow> string" where
  "str_nat n = (if n < 10 then [chiffre n] else str_nat (n div 10) @ [chiffre (n mod 10)])"

declare str_nat.simps [simp del]

text \<open>The f-string \<open>f'Q{k}'\<close>.\<close>

definition cle_q :: "nat \<Rightarrow> string" where
  "cle_q k = ''Q'' @ str_nat k"

subsection \<open>The score calculator\<close>

text \<open>\<open>responses.get(key, default)\<close>.\<close>

definition dict_get :: "(string \<rightharpoonup> rval) \<Rightarrow> string \<Rightarrow> rval \<Rightarrow> rval" where
  "dict_get d k dflt = (case d k of None \<Rightarrow> dflt | Some v \<Rightarrow> v)"

text \<open>
  The use of a response value as a number (\<open>score += score_i\<close>): adding a \<open>str\<close> or
  \<open>None\<close> to an int raises \<open>TypeError\<close>.
\<close>

fun py_int :: "rval \<Rightarrow> py_error + int" where
  "py_int (RInt n) = Inr n"
| "py_int (RStr s) = Inl TypeError"
| "py_int RNone = Inl TypeError"

text \<open>\<open>xs[i]\<close> for a non-negative index: \<open>IndexError\<close> past the end.\<close>

definition py_index :: "'a list \<Rightarrow> nat \<Rightarrow> py_error + 'a" where
  "py_index xs i = (if i < length xs then Inr (xs ! i) else Inl IndexError)"

text \<open>
  The loop \<open>for i in range(6)\<close> over Part A, on the list of indices still to visit, with the
  accumulators \<open>score_partie_a\<close> and \<open>items_positifs_a\<close>. In one iteration the addition comes
  before the read of \<open>seuils_a[i]\<close>.
\<close>

fun boucle_a :: "(string \<rightharpoonup> rval) \<Rightarrow> int list \<Rightarrow> nat list \<Rightarrow> int \<times> int \<Rightarrow> py_error + (int \<times> int)" where
  "boucle_a responses seuils_a [] acc = Inr acc"
| "boucle_a responses seuils_a (i # is) (score, positifs) =
     (case py_int (dict_get responses (cle_q (i + 1)) (RInt 0)) of
        Inl e \<Rightarrow> Inl e
      | Inr score_i \<Rightarrow>
          (case py_index seuils_a i of
             Inl e \<Rightarrow> Inl e
           | Inr seuil \<Rightarrow>
               boucle_a responses seuils_a is
                 (score + score_i, if score_i \<ge> seuil then positifs + 1 else positifs)))"

text \<open>The loop \<open>for i in range(6, 18)\<close> over Part B, with the fixed threshold 3.\<close>

fun boucle_b :: "(string \<rightharpoonup> rval) \<Rightarrow> nat list \<Rightarrow> int \<times> int \<Rightarrow> py_error + (int \<times> int)" where
  "boucle_b responses [] acc = Inr acc"
| "boucle_b responses (i # is) (score, positifs) =
     (case py_int (dict_get responses (cle_q (i + 1)) (RInt 0)) of
        Inl e \<Rightarrow> Inl e
      | Inr score_i \<Rightarrow>
          boucle_b responses is
            (score + score_i, if score_i \<ge> 3 then positifs + 1 else positifs))"

text \<open>\<open>config.get('seuils_partie_a', [2, 3, 2, 2, 3, 3])\<close>.\<close>

definition seuils_de :: "'a config_scheme \<Rightarrow> int list" where
  "seuils_de cfg = (case seuils_partie_a cfg of None \<Rightarrow> [2, 3, 2, 2, 3, 3] | Some s \<Rightarrow> s)"

definition calculer_score_asrs :: "(string \<rightharpoonup> rval) \<Rightarrow> 'a config_scheme \<Rightarrow> py_error + score_report" where
  "calculer_score_asrs responses cfg =
     (let seuils_a = seuils_de cfg in
      case boucle_a responses seuils_a [0..<6] (0, 0) of
        Inl e \<Rightarrow> Inl e
      | Inr (score_a, positifs_a) \<Rightarrow>
          (case boucle_b responses [6..<18] (0, 0) of
             Inl e \<Rightarrow> Inl e
           | Inr (score_b, positifs_b) \<Rightarrow>
               Inr \<lparr> score_total = score_a + score_b,
                     score_max = 72,
                     score_partie_a = score_a,
                     score_partie_b = score_b,
                     items_positifs_a = positifs_a,
                     items_positifs_b = positifs_b,
                     screening_positif = (positifs_a \<ge> 4) \<rparr>))"

subsection \<open>Reading a report against the questionnaire\<close>

text \<open>
  The value of item \<open>k\<close> (1..18) as the calculator reads it: the stored integer, and 0
  for an item that is absent.
\<close>

definition valeur :: "(string \<rightharpoonup> rval) \<Rightarrow> nat \<Rightarrow> int" where
  "valeur responses k = (case responses (cle_q k) of Some (RInt v) \<Rightarrow> v | _ \<Rightarrow> 0)"

text \<open>Item \<open>k\<close> is present with an integer value.\<close>

definition entier_present :: "(string \<rightharpoonup> rval) \<Rightarrow> nat \<Rightarrow> bool" where
  "entier_present responses k = (case responses (cle_q k) of Some (RInt v) \<Rightarrow> True | _ \<Rightarrow> False)"

text \<open>Item \<open>k\<close> is absent, or present with an integer value.\<close>

definition entier_ou_absent :: "(string \<rightharpoonup> rval) \<Rightarrow> nat \<Rightarrow> bool" where
  "entier_ou_absent responses k =
     (case responses (cle_q k) of None \<Rightarrow> True | Some (RInt v) \<Rightarrow> True | Some _ \<Rightarrow> False)"

text \<open>
  The number of items of the set \<open>S\<close> whose value reaches the item's threshold
  (\<open>\<ge>\<close>, inclusive).
\<close>

definition items_positifs :: "nat set \<Rightarrow> (nat \<Rightarrow> int) \<Rightarrow> (string \<rightharpoonup> rval) \<Rightarrow> nat" where
  "items_positifs S seuil responses = card {k \<in> S. valeur responses k \<ge> seuil k}"

text \<open>The threshold of Part A item \<open>k\<close> (1..6) in a threshold list, and the one of Part B.\<close>

definition seuil_a :: "int list \<Rightarrow> nat \<Rightarrow> int" where
  "seuil_a seuils k = seuils ! (k - 1)"

definition seuil_b :: "nat \<Rightarrow> int" where
  "seuil_b k = 3"


text \<open>The response mapping that gives items 1, 2, ... the values of a list.\<close>

definition reponses_de :: "int list \<Rightarrow> (string \<rightharpoonup> rval)" where
  "reponses_de vs = map_of (zip (map cle_q [1..<Suc (length vs)]) (map RInt vs))"

text \<open>A configuration that leaves the thresholds out, and one that sets them.\<close>

definition config_defaut :: config where
  "config_defaut = \<lparr> seuils_partie_a = None,
                     echelle_likert = Some [''Jamais'', ''Rarement'', ''Parfois'', ''Souvent'', ''Tres souvent''],
                     questionnaire_pre = None, questionnaire_post = None,
                     questionnaire_retrospectif = None \<rparr>"

definition config_seuils :: "int list \<Rightarrow> config" where
  "config_seuils s = config_defaut \<lparr> seuils_partie_a := Some s \<rparr>"

text \<open>The response mapping \<open>reponses_de vs\<close> without the key of item \<open>j\<close>.\<close>

definition reponses_sauf :: "nat \<Rightarrow> int list \<Rightarrow> (string \<rightharpoonup> rval)" where
  "reponses_sauf j vs =
     map_of (filter (\<lambda>(k, v). k \<noteq> cle_q j) (zip (map cle_q [1..<Suc (length vs)]) (map RInt vs)))"

text \<open>
  Item \<open>k\<close> is not a valid response: it is absent, negative, or above the last index of
  the configured scale.
\<close>

definition reponse_invalide :: "'a config_scheme \<Rightarrow> (string \<rightharpoonup> rval) \<Rightarrow> nat \<Rightarrow> bool" where
  "reponse_invalide cfg responses k =
     (responses (cle_q k) = None \<or> valeur responses k < 0
      \<or> valeur responses k > int (length (case echelle_likert cfg of None \<Rightarrow> [] | Some e \<Rightarrow> e)) - 1)"

subsection \<open>The legend of the total score\<close>

text \<open>
  app.py computes no band: after a submission it shows the total beside a fixed legend of
  four ranges (the expander "Que signifient mes scores ?"). The legend is data of the
  source: one row per range, with the two bounds as they are displayed.
\<close>

datatype bande = Occasionnelles | Moderees | Importantes | Tres_marquees



subsection \<open>The percentage\<close>

text \<open>
  Python's \<open>round(x, 1)\<close> rounds to the nearest tenth, a tie going to the even tenth.
  Floats are modelled by exact rationals.
\<close>

definition round_half_even :: "rat \<Rightarrow> int" where
  "round_half_even x =
     (let f = \<lfloor>x\<rfloor>; d = x - of_int f in
      if d < 1 / 2 then f else if d > 1 / 2 then f + 1 else if even f then f else f + 1)"

definition py_round1 :: "rat \<Rightarrow> rat" where
  "py_round1 x = of_int (round_half_even (x * 10)) / 10"

text \<open>\<open>round((scores['score_total'] / scores['score_max']) * 100, 1)\<close>.\<close>

definition score_pourcentage :: "score_report \<Rightarrow> rat" where
  "score_pourcentage scores = py_round1 ((of_int (score_total scores) / of_int (score_max scores)) * 100)"

subsection \<open>Ordered dictionaries and the row to save\<close>

text \<open>The values of a saved row.\<close>

datatype cell = CInt int | CStr string | CBool bool | CFloat rat | CNone





subsection \<open>What the page shows\<close>

text \<open>The messages of app.py, by name; a parameter is the value formatted into the text.\<close>

datatype texte =
    Pas_de_connexion
  | Url_non_configuree
  | Erreur_connexion string
  | Erreur_sauvegarde string
  | Reponses_enregistrees
  | Erreur_enregistrement
  | Symptomes_marques int
  | Symptomes_legers int
  | Merci_participation

text \<open>
  The Streamlit calls that show a message or a result, in the order they are made.
  Titles, separators and the widgets of the form are left out.
\<close>

datatype affichage =
    St_success texte
  | St_warning texte
  | St_error texte
  | St_info texte
  | Metric_score_total int int
  | Caption_pourcentage rat
  | Metric_partie_a int
  | Metric_satisfaction int
  | Expander_scores int "(int \<times> int \<times> bande) list"

subsection \<open>The external store\<close>

text \<open>
  Streamlit's secrets and the gspread library are outside the repository: they are
  parameters. \<open>'c\<close> is an authorised client and \<open>'s\<close> the state of the remote spreadsheet.
  A call that raises gives the text of its exception: \<open>Inl\<close> for the calls that return an
  object, \<open>Some\<close> beside the new state for the calls that change the spreadsheet.
  \<open>gsheet_credentials\<close> is the entry of \<open>st.secrets\<close> (\<open>None\<close> when the key is absent),
  or the exception raised when the secrets cannot be read.
\<close>

record ('c, 's) exterieur =
  gsheet_credentials :: "string + string option"
  gsheet_url :: "string option"
  authorize :: "string \<Rightarrow> string + 'c"
  open_by_url :: "'c \<Rightarrow> string \<Rightarrow> string + 's"
  worksheet :: "'s \<Rightarrow> string \<Rightarrow> bool"
  add_worksheet :: "'s \<Rightarrow> string \<Rightarrow> 's \<times> string option"
  append_row :: "'s \<Rightarrow> string \<Rightarrow> cell list \<Rightarrow> 's \<times> string option"

text \<open>
  \<open>connect_to_gsheet\<close>: the spreadsheet, or \<open>None\<close> with a warning; every exception is
  caught.
\<close>

definition connect_to_gsheet :: "('c, 's) exterieur \<Rightarrow> 's option \<times> affichage list" where
  "connect_to_gsheet ext =
     (case gsheet_credentials ext of
        Inl e \<Rightarrow> (None, [St_warning (Erreur_connexion e)])
      | Inr None \<Rightarrow> (None, [St_warning Pas_de_connexion])
      | Inr (Some credentials_dict) \<Rightarrow>
          (case authorize ext credentials_dict of
             Inl e \<Rightarrow> (None, [St_warning (Erreur_connexion e)])
           | Inr client \<Rightarrow>
               (let sheet_url = (case gsheet_url ext of None \<Rightarrow> [] | Some u \<Rightarrow> u) in
                if sheet_url \<noteq> [] then
                  (case open_by_url ext client sheet_url of
                     Inl e \<Rightarrow> (None, [St_warning (Erreur_connexion e)])
                   | Inr spreadsheet \<Rightarrow> (Some spreadsheet, []))
                else (None, [St_warning Url_non_configuree]))))"

text \<open>
  \<open>save_to_gsheet\<close>: \<open>True\<close> when the row is appended; any exception is caught, shown
  with \<open>st.error\<close>, and gives \<open>False\<close>. A worksheet that cannot be fetched is created
  and given the keys as its header row.
\<close>

definition save_to_gsheet ::
  "('c, 's) exterieur \<Rightarrow> 's \<Rightarrow> string \<Rightarrow> (string \<times> cell) list \<Rightarrow> bool \<times> affichage list \<times> 's" where
  "save_to_gsheet ext spreadsheet worksheet_name data =
     (let (sp1, exc1) =
        (if worksheet ext spreadsheet worksheet_name then (spreadsheet, None)
         else (case add_worksheet ext spreadsheet worksheet_name of
                 (sp', Some e) \<Rightarrow> (sp', Some e)
               | (sp', None) \<Rightarrow> append_row ext sp' worksheet_name (map (\<lambda>(k, v). CStr k) data)))
      in case exc1 of
           Some e \<Rightarrow> (False, [St_error (Erreur_sauvegarde e)], sp1)
         | None \<Rightarrow>
             (case append_row ext sp1 worksheet_name (map snd data) of
                (sp2, Some e) \<Rightarrow> (False, [St_error (Erreur_sauvegarde e)], sp2)
              | (sp2, None) \<Rightarrow> (True, [], sp2)))"

subsection \<open>The questionnaire page\<close>



















section \<open>Properties of the score calculator\<close>

subsection \<open>What the two loops compute\<close>

lemma py_int_get:
  "entier_ou_absent rs k \<Longrightarrow> py_int (dict_get rs (cle_q k) (RInt 0)) = Inr (valeur rs k)"
  by (auto simp: entier_ou_absent_def dict_get_def valeur_def split: option.splits rval.splits)

lemma boucle_a_Inr:
  "\<forall>i\<in>set is. i < length seuils \<and> entier_ou_absent rs (i + 1) \<Longrightarrow>
   boucle_a rs seuils is (s, p) =
     Inr (s + sum_list (map (\<lambda>i. valeur rs (i + 1)) is),
          p + int (length (filter (\<lambda>i. valeur rs (i + 1) \<ge> seuil_a seuils (i + 1)) is)))"
  by (induction "is" arbitrary: s p) (simp_all add: py_int_get py_index_def seuil_a_def)

lemma boucle_b_Inr:
  "\<forall>i\<in>set is. entier_ou_absent rs (i + 1) \<Longrightarrow>
   boucle_b rs is (s, p) =
     Inr (s + sum_list (map (\<lambda>i. valeur rs (i + 1)) is),
          p + int (length (filter (\<lambda>i. valeur rs (i + 1) \<ge> seuil_b (i + 1)) is)))"
  by (induction "is" arbitrary: s p) (simp_all add: py_int_get seuil_b_def)

lemma somme_upt: "sum_list (map (\<lambda>i. f (i + 1)) [m..<n]) = (\<Sum>k = m + 1..n. (f k :: int))"
proof -
  have "sum_list (map (\<lambda>i. f (i + 1)) [m..<n]) = (\<Sum>i = m..<n. f (Suc i))"
    by (simp add: interv_sum_list_conv_sum_set_nat)
  also have "\<dots> = (\<Sum>k = Suc m..<Suc n. f k)"
    by (rule sum.shift_bounds_Suc_ivl [symmetric])
  also have "{Suc m..<Suc n} = {m + 1..n}"
    by auto
  finally show ?thesis .
qed

lemma somme_intervalle: "sum_list (map f [m..<Suc n]) = (\<Sum>k = m..n. f k)"
  by (simp only: interv_sum_list_conv_sum_set_nat set_upt atLeastLessThanSuc_atLeastAtMost)

lemma compte_upt:
  "length (filter (\<lambda>i. valeur rs (i + 1) \<ge> seuil (i + 1)) [m..<n]) = items_positifs {m + 1..n} seuil rs"
proof -
  let ?P = "\<lambda>k. valeur rs k \<ge> seuil k"
  have "length (filter (\<lambda>i. ?P (i + 1)) [m..<n]) = card ({i. ?P (i + 1)} \<inter> set [m..<n])"
    by (rule distinct_length_filter) simp
  also have "{i. ?P (i + 1)} \<inter> set [m..<n] = {i \<in> {m..<n}. ?P (Suc i)}"
    by auto
  also have "card \<dots> = card (Suc ` {i \<in> {m..<n}. ?P (Suc i)})"
    by (simp add: card_image)
  also have "Suc ` {i \<in> {m..<n}. ?P (Suc i)} = {k \<in> {m + 1..n}. ?P k}"
  proof (rule set_eqI)
    fix k show "k \<in> Suc ` {i \<in> {m..<n}. ?P (Suc i)} \<longleftrightarrow> k \<in> {k \<in> {m + 1..n}. ?P k}"
      by (cases k) auto
  qed
  finally show ?thesis by (simp add: items_positifs_def)
qed

lemma calculer_Inr:
  assumes ent: "\<forall>k\<in>{1..18}. entier_ou_absent rs k" and len: "6 \<le> length (seuils_de cfg)"
  shows "calculer_score_asrs rs cfg =
    Inr \<lparr> score_total = (\<Sum>k = 1..6. valeur rs k) + (\<Sum>k = 7..18. valeur rs k),
          score_max = 72,
          score_partie_a = (\<Sum>k = 1..6. valeur rs k),
          score_partie_b = (\<Sum>k = 7..18. valeur rs k),
          items_positifs_a = int (items_positifs {1..6} (seuil_a (seuils_de cfg)) rs),
          items_positifs_b = int (items_positifs {7..18} seuil_b rs),
          screening_positif = (4 \<le> items_positifs {1..6} (seuil_a (seuils_de cfg)) rs) \<rparr>"
proof -
  have a: "\<forall>i\<in>set [0..<6]. i < length (seuils_de cfg) \<and> entier_ou_absent rs (i + 1)"
    using ent len by auto
  have b: "\<forall>i\<in>set [6..<18]. entier_ou_absent rs (i + 1)"
    using ent by auto
  have sa: "sum_list (map (\<lambda>i. valeur rs (i + 1)) [0..<6]) = (\<Sum>k = 1..6. valeur rs k)"
    using somme_upt [of "valeur rs" 0 6] by simp
  have sb: "sum_list (map (\<lambda>i. valeur rs (i + 1)) [6..<18]) = (\<Sum>k = 7..18. valeur rs k)"
    using somme_upt [of "valeur rs" 6 18] by simp
  have ca: "length (filter (\<lambda>i. valeur rs (i + 1) \<ge> seuil_a (seuils_de cfg) (i + 1)) [0..<6])
            = items_positifs {1..6} (seuil_a (seuils_de cfg)) rs"
    using compte_upt [where rs = rs and seuil = "seuil_a (seuils_de cfg)" and m = 0 and n = 6] by simp
  have cb: "length (filter (\<lambda>i. valeur rs (i + 1) \<ge> seuil_b (i + 1)) [6..<18])
            = items_positifs {7..18} seuil_b rs"
    using compte_upt [where rs = rs and seuil = seuil_b and m = 6 and n = 18] by simp
  show ?thesis
    unfolding calculer_score_asrs_def Let_def
    by (simp only: boucle_a_Inr [OF a] boucle_b_Inr [OF b] sa sb ca cb) simp
qed


lemma entier_present_ou_absent: "entier_present rs k \<Longrightarrow> entier_ou_absent rs k"
  by (auto simp: entier_present_def entier_ou_absent_def split: option.splits rval.splits)

subsection \<open>Screening decision\<close>

text \<open>
  C1. For every response set that holds an integer for each of the items 1..18 (and a
  threshold list of at least six entries), the calculator returns a report whose Part A
  positive count is the number of items 1..6 with a value at or above their threshold,
  and whose \<open>screening_positif\<close> flag is true exactly when that count is at least 4.
  The two boundary cases, 4 positives and 3 positives, are evaluated below.
\<close>

theorem screening_ssi_quatre_positifs:
  assumes "\<forall>k\<in>{1..18}. entier_present rs k" and "6 \<le> length (seuils_de cfg)"
  shows "\<exists>r. calculer_score_asrs rs cfg = Inr r
           \<and> items_positifs_a r = int (items_positifs {1..6} (seuil_a (seuils_de cfg)) rs)
           \<and> (screening_positif r \<longleftrightarrow> 4 \<le> items_positifs {1..6} (seuil_a (seuils_de cfg)) rs)"
proof -
  have "\<forall>k\<in>{1..18}. entier_ou_absent rs k"
    using assms(1) by (blast intro: entier_present_ou_absent)
  from calculer_Inr [OF this assms(2)] show ?thesis by simp
qed

theorem screening_ssi_quatre_positifs_witness:
  "items_positifs {1..6} (seuil_a (seuils_de config_defaut))
     (reponses_de [2, 3, 2, 2, 0, 0, 0, 0, 0, 0, 0, 0, 0, 0, 0, 0, 0, 0]) = 4
   \<and> (\<exists>r. calculer_score_asrs (reponses_de [2, 3, 2, 2, 0, 0, 0, 0, 0, 0, 0, 0, 0, 0, 0, 0, 0, 0])
             config_defaut = Inr r \<and> screening_positif r)
   \<and> items_positifs {1..6} (seuil_a (seuils_de config_defaut))
     (reponses_de [2, 3, 2, 1, 0, 0, 0, 0, 0, 0, 0, 0, 0, 0, 0, 0, 0, 0]) = 3
   \<and> (\<exists>r. calculer_score_asrs (reponses_de [2, 3, 2, 1, 0, 0, 0, 0, 0, 0, 0, 0, 0, 0, 0, 0, 0, 0])
             config_defaut = Inr r \<and> \<not> screening_positif r)"
proof -
  let ?r4 = "reponses_de [2, 3, 2, 2, 0, 0, 0, 0, 0, 0, 0, 0, 0, 0, 0, 0, 0, 0]"
  let ?r3 = "reponses_de [2, 3, 2, 1, 0, 0, 0, 0, 0, 0, 0, 0, 0, 0, 0, 0, 0, 0]"
  have p4: "\<forall>k\<in>{1..18}. entier_present ?r4 k" by code_simp
  have p3: "\<forall>k\<in>{1..18}. entier_present ?r3 k" by code_simp
  have l: "6 \<le> length (seuils_de config_defaut)" by code_simp
  have c4: "items_positifs {1..6} (seuil_a (seuils_de config_defaut)) ?r4 = 4" by code_simp
  have c3: "items_positifs {1..6} (seuil_a (seuils_de config_defaut)) ?r3 = 3" by code_simp
  show ?thesis
    using screening_ssi_quatre_positifs [OF p4 l] screening_ssi_quatre_positifs [OF p3 l]
    by (simp only: c4 c3) auto
qed

subsection \<open>Total score\<close>

text \<open>
  C3. For every response set whose 18 items all hold an integer in [0, 4], the report's
  Part A score is the sum of items 1..6, its Part B score the sum of items 7..18, its
  total the sum of the two, and the total lies between 0 and 72.
\<close>

theorem total_somme_et_bornes:
  assumes val: "\<forall>k\<in>{1..18}. entier_present rs k \<and> 0 \<le> valeur rs k \<and> valeur rs k \<le> 4"
    and len: "6 \<le> length (seuils_de cfg)"
  shows "\<exists>r. calculer_score_asrs rs cfg = Inr r
           \<and> score_partie_a r = (\<Sum>k = 1..6. valeur rs k)
           \<and> score_partie_b r = (\<Sum>k = 7..18. valeur rs k)
           \<and> score_total r = score_partie_a r + score_partie_b r
           \<and> 0 \<le> score_total r \<and> score_total r \<le> 72"
proof -
  have ent: "\<forall>k\<in>{1..18}. entier_ou_absent rs k"
    using val by (blast intro: entier_present_ou_absent)
  have a0: "0 \<le> (\<Sum>k = 1..6. valeur rs k)"
    by (rule sum_nonneg) (use val in auto)
  have b0: "0 \<le> (\<Sum>k = 7..18. valeur rs k)"
    by (rule sum_nonneg) (use val in auto)
  have "(\<Sum>k = 1..6. valeur rs k) \<le> of_nat (card {1..6::nat}) * 4"
    by (rule sum_bounded_above) (use val in auto)
  then have a4: "(\<Sum>k = 1..6. valeur rs k) \<le> 24" by simp
  have "(\<Sum>k = 7..18. valeur rs k) \<le> of_nat (card {7..18::nat}) * 4"
    by (rule sum_bounded_above) (use val in auto)
  then have b4: "(\<Sum>k = 7..18. valeur rs k) \<le> 48" by simp
  show ?thesis
    using calculer_Inr [OF ent len] a0 b0 a4 b4 by simp
qed

theorem total_somme_et_bornes_witness:
  "\<exists>r. calculer_score_asrs (reponses_de [4, 0, 3, 1, 2, 4, 0, 0, 1, 1, 2, 2, 3, 3, 4, 4, 0, 1]) config_defaut = Inr r
      \<and> score_partie_a r = 14 \<and> score_partie_b r = 21 \<and> score_total r = 35"
proof -
  let ?rs = "reponses_de [4, 0, 3, 1, 2, 4, 0, 0, 1, 1, 2, 2, 3, 3, 4, 4, 0, 1]"
  have v: "\<forall>k\<in>{1..18}. entier_present ?rs k \<and> 0 \<le> valeur ?rs k \<and> valeur ?rs k \<le> 4" by code_simp
  have l: "6 \<le> length (seuils_de config_defaut)" by code_simp
  have sa: "(\<Sum>k = 1..6. valeur ?rs k) = 14" by code_simp
  have sb: "(\<Sum>k = 7..18. valeur ?rs k) = 21" by code_simp
  show ?thesis
    using total_somme_et_bornes [OF v l] by (simp only: sa sb) auto
qed


subsection \<open>Inclusive thresholds\<close>

lemma items_positifs_retirer:
  assumes "finite S" and "k \<in> S"
  shows "items_positifs S seuil rs =
           (if valeur rs k \<ge> seuil k then 1 else 0) + items_positifs (S - {k}) seuil rs"
proof -
  let ?P = "\<lambda>j. valeur rs j \<ge> seuil j"
  have fin: "finite {j \<in> S - {k}. ?P j}" using assms(1) by simp
  have notin: "k \<notin> {j \<in> S - {k}. ?P j}" by simp
  show ?thesis
  proof (cases "?P k")
    case True
    then have "{j \<in> S. ?P j} = insert k {j \<in> S - {k}. ?P j}"
      using assms(2) by auto
    then show ?thesis
      using True fin notin by (simp add: items_positifs_def)
  next
    case False
    then have "{j \<in> S. ?P j} = {j \<in> S - {k}. ?P j}"
      by auto
    then show ?thesis
      using False by (simp add: items_positifs_def)
  qed
qed

text \<open>
  C4. The comparison with a threshold is inclusive in both parts. For a response set that
  holds an integer for each item: an item \<open>k\<close> of 1..6 whose value equals its configured
  threshold adds one to the Part A positive count (the count is one more than the count
  over the other five items), and one whose value is strictly below its threshold adds
  nothing; an item \<open>k\<close> of 7..18 whose value equals 3 adds one to the Part B positive
  count, and one whose value is below 3 adds nothing.
\<close>

theorem seuils_inclusifs:
  assumes "\<forall>k\<in>{1..18}. entier_present rs k" and "6 \<le> length (seuils_de cfg)"
  shows "\<exists>r. calculer_score_asrs rs cfg = Inr r
    \<and> (\<forall>k\<in>{1..6}.
          (valeur rs k = seuil_a (seuils_de cfg) k \<longrightarrow>
             items_positifs_a r = int (items_positifs ({1..6} - {k}) (seuil_a (seuils_de cfg)) rs) + 1)
        \<and> (valeur rs k < seuil_a (seuils_de cfg) k \<longrightarrow>
             items_positifs_a r = int (items_positifs ({1..6} - {k}) (seuil_a (seuils_de cfg)) rs)))
    \<and> (\<forall>k\<in>{7..18}.
          (valeur rs k = 3 \<longrightarrow>
             items_positifs_b r = int (items_positifs ({7..18} - {k}) seuil_b rs) + 1)
        \<and> (valeur rs k < 3 \<longrightarrow>
             items_positifs_b r = int (items_positifs ({7..18} - {k}) seuil_b rs)))"
proof -
  have ent: "\<forall>k\<in>{1..18}. entier_ou_absent rs k"
    using assms(1) by (blast intro: entier_present_ou_absent)
  let ?r = "\<lparr> score_total = (\<Sum>k = 1..6. valeur rs k) + (\<Sum>k = 7..18. valeur rs k),
          score_max = 72,
          score_partie_a = (\<Sum>k = 1..6. valeur rs k),
          score_partie_b = (\<Sum>k = 7..18. valeur rs k),
          items_positifs_a = int (items_positifs {1..6} (seuil_a (seuils_de cfg)) rs),
          items_positifs_b = int (items_positifs {7..18} seuil_b rs),
          screening_positif = (4 \<le> items_positifs {1..6} (seuil_a (seuils_de cfg)) rs) \<rparr>"
  have r: "calculer_score_asrs rs cfg = Inr ?r"
    by (rule calculer_Inr [OF ent assms(2)])
  have a: "\<forall>k\<in>{1..6}.
          (valeur rs k = seuil_a (seuils_de cfg) k \<longrightarrow>
             items_positifs_a ?r = int (items_positifs ({1..6} - {k}) (seuil_a (seuils_de cfg)) rs) + 1)
        \<and> (valeur rs k < seuil_a (seuils_de cfg) k \<longrightarrow>
             items_positifs_a ?r = int (items_positifs ({1..6} - {k}) (seuil_a (seuils_de cfg)) rs))"
  proof
    fix k :: nat assume k: "k \<in> {1..6}"
    have "items_positifs {1..6} (seuil_a (seuils_de cfg)) rs =
            (if valeur rs k \<ge> seuil_a (seuils_de cfg) k then 1 else 0)
            + items_positifs ({1..6} - {k}) (seuil_a (seuils_de cfg)) rs"
      by (rule items_positifs_retirer) (use k in simp_all)
    then show "(valeur rs k = seuil_a (seuils_de cfg) k \<longrightarrow>
             items_positifs_a ?r = int (items_positifs ({1..6} - {k}) (seuil_a (seuils_de cfg)) rs) + 1)
        \<and> (valeur rs k < seuil_a (seuils_de cfg) k \<longrightarrow>
             items_positifs_a ?r = int (items_positifs ({1..6} - {k}) (seuil_a (seuils_de cfg)) rs))"
      by simp
  qed
  have b: "\<forall>k\<in>{7..18}.
          (valeur rs k = 3 \<longrightarrow>
             items_positifs_b ?r = int (items_positifs ({7..18} - {k}) seuil_b rs) + 1)
        \<and> (valeur rs k < 3 \<longrightarrow>
             items_positifs_b ?r = int (items_positifs ({7..18} - {k}) seuil_b rs))"
  proof
    fix k :: nat assume k: "k \<in> {7..18}"
    have "items_positifs {7..18} seuil_b rs =
            (if valeur rs k \<ge> seuil_b k then 1 else 0) + items_positifs ({7..18} - {k}) seuil_b rs"
      by (rule items_positifs_retirer) (use k in simp_all)
    then show "(valeur rs k = 3 \<longrightarrow>
             items_positifs_b ?r = int (items_positifs ({7..18} - {k}) seuil_b rs) + 1)
        \<and> (valeur rs k < 3 \<longrightarrow>
             items_positifs_b ?r = int (items_positifs ({7..18} - {k}) seuil_b rs))"
      by (simp add: seuil_b_def)
  qed
  from r a b show ?thesis by blast
qed

theorem seuils_inclusifs_witness:
  "\<exists>r. calculer_score_asrs (reponses_de [0, 3, 0, 0, 2, 0, 3, 2, 0, 0, 0, 0, 0, 0, 0, 0, 0, 0]) config_defaut = Inr r
      \<and> items_positifs_a r = 1 \<and> items_positifs_b r = 1"
proof -
  let ?rs = "reponses_de [0, 3, 0, 0, 2, 0, 3, 2, 0, 0, 0, 0, 0, 0, 0, 0, 0, 0]"
  have p: "\<forall>k\<in>{1..18}. entier_present ?rs k" by code_simp
  have l: "6 \<le> length (seuils_de config_defaut)" by code_simp
  have v2: "valeur ?rs 2 = seuil_a (seuils_de config_defaut) 2" by code_simp
  have v7: "valeur ?rs 7 = 3" by code_simp
  have o2: "items_positifs ({1..6} - {2}) (seuil_a (seuils_de config_defaut)) ?rs = 0" by code_simp
  have o7: "items_positifs ({7..18} - {7}) seuil_b ?rs = 0" by code_simp
  from seuils_inclusifs [OF p l] obtain r where
    r: "calculer_score_asrs ?rs config_defaut = Inr r"
    and a: "\<forall>k\<in>{1..6}.
          (valeur ?rs k = seuil_a (seuils_de config_defaut) k \<longrightarrow>
             items_positifs_a r = int (items_positifs ({1..6} - {k}) (seuil_a (seuils_de config_defaut)) ?rs) + 1)
        \<and> (valeur ?rs k < seuil_a (seuils_de config_defaut) k \<longrightarrow>
             items_positifs_a r = int (items_positifs ({1..6} - {k}) (seuil_a (seuils_de config_defaut)) ?rs))"
    and b: "\<forall>k\<in>{7..18}.
          (valeur ?rs k = 3 \<longrightarrow>
             items_positifs_b r = int (items_positifs ({7..18} - {k}) seuil_b ?rs) + 1)
        \<and> (valeur ?rs k < 3 \<longrightarrow>
             items_positifs_b r = int (items_positifs ({7..18} - {k}) seuil_b ?rs))"
    by blast
  have "(2::nat) \<in> {1..6}" by simp
  with a v2 o2 have ra: "items_positifs_a r = 1" by fastforce
  have "(7::nat) \<in> {7..18}" by simp
  with b v7 o7 have rb: "items_positifs_b r = 1" by fastforce
  from r ra rb show ?thesis by blast
qed

subsection \<open>What the calculator reads\<close>

lemma boucle_a_cong:
  "\<forall>i\<in>set is. dict_get rs (cle_q (i + 1)) (RInt 0) = dict_get rs' (cle_q (i + 1)) (RInt 0) \<Longrightarrow>
   boucle_a rs seuils is acc = boucle_a rs' seuils is acc"
proof (induction "is" arbitrary: acc)
  case Nil
  show ?case by simp
next
  case (Cons i "is")
  obtain s p where acc: "acc = (s, p)" by (cases acc)
  from Cons.prems have h: "dict_get rs (cle_q (i + 1)) (RInt 0) = dict_get rs' (cle_q (i + 1)) (RInt 0)"
    and t: "\<forall>i\<in>set is. dict_get rs (cle_q (i + 1)) (RInt 0) = dict_get rs' (cle_q (i + 1)) (RInt 0)"
    by simp_all
  show ?case
    unfolding acc boucle_a.simps h by (simp add: Cons.IH [OF t] split: sum.splits)
qed

lemma boucle_b_cong:
  "\<forall>i\<in>set is. dict_get rs (cle_q (i + 1)) (RInt 0) = dict_get rs' (cle_q (i + 1)) (RInt 0) \<Longrightarrow>
   boucle_b rs is acc = boucle_b rs' is acc"
proof (induction "is" arbitrary: acc)
  case Nil
  show ?case by simp
next
  case (Cons i "is")
  obtain s p where acc: "acc = (s, p)" by (cases acc)
  from Cons.prems have h: "dict_get rs (cle_q (i + 1)) (RInt 0) = dict_get rs' (cle_q (i + 1)) (RInt 0)"
    and t: "\<forall>i\<in>set is. dict_get rs (cle_q (i + 1)) (RInt 0) = dict_get rs' (cle_q (i + 1)) (RInt 0)"
    by simp_all
  show ?case
    unfolding acc boucle_b.simps h by (simp add: Cons.IH [OF t] split: sum.splits)
qed

lemma calculer_cong:
  assumes "\<forall>k\<in>{1..18}. dict_get rs (cle_q k) (RInt 0) = dict_get rs' (cle_q k) (RInt 0)"
    and "seuils_de cfg = seuils_de cfg'"
  shows "calculer_score_asrs rs cfg = calculer_score_asrs rs' cfg'"
proof -
  have a: "\<forall>i\<in>set [0..<6]. dict_get rs (cle_q (i + 1)) (RInt 0) = dict_get rs' (cle_q (i + 1)) (RInt 0)"
    using assms(1) by auto
  have b: "\<forall>i\<in>set [6..<18]. dict_get rs (cle_q (i + 1)) (RInt 0) = dict_get rs' (cle_q (i + 1)) (RInt 0)"
    using assms(1) by auto
  show ?thesis
    unfolding calculer_score_asrs_def Let_def
    by (simp only: boucle_a_cong [OF a] boucle_b_cong [OF b] assms(2))
qed



subsection \<open>Totality\<close>




subsection \<open>Default thresholds\<close>

lemma screening_ssi_positifs_aux:
  assumes "\<forall>k\<in>{1..18}. entier_present rs k" and "6 \<le> length (seuils_de cfg)"
  shows "\<exists>r. calculer_score_asrs rs cfg = Inr r
           \<and> items_positifs_a r = int (items_positifs {1..6} (seuil_a (seuils_de cfg)) rs)"
proof -
  have "\<forall>k\<in>{1..18}. entier_ou_absent rs k"
    using assms(1) by (blast intro: entier_present_ou_absent)
  from calculer_Inr [OF this assms(2)] show ?thesis by simp
qed

text \<open>
  C5. When the configuration has no key \<open>seuils_partie_a\<close>, the calculator behaves as with
  the thresholds [2, 3, 2, 2, 3, 3]: the result is the one of the same configuration with
  these thresholds written in, and the Part A positive count is taken against them. When
  the configuration gives a threshold list (of at least six entries), the count is taken
  against the configured list.
\<close>

theorem seuils_par_defaut:
  "(seuils_partie_a cfg = None \<longrightarrow>
      calculer_score_asrs rs cfg
        = calculer_score_asrs rs (cfg \<lparr> seuils_partie_a := Some [2, 3, 2, 2, 3, 3] \<rparr>)
      \<and> ((\<forall>k\<in>{1..18}. entier_present rs k) \<longrightarrow>
           (\<exists>r. calculer_score_asrs rs cfg = Inr r
              \<and> items_positifs_a r = int (items_positifs {1..6} (seuil_a [2, 3, 2, 2, 3, 3]) rs))))
   \<and> (\<forall>s. seuils_partie_a cfg = Some s \<and> 6 \<le> length s \<and> (\<forall>k\<in>{1..18}. entier_present rs k) \<longrightarrow>
           (\<exists>r. calculer_score_asrs rs cfg = Inr r
              \<and> items_positifs_a r = int (items_positifs {1..6} (seuil_a s) rs)))"
proof (intro conjI impI allI)
  assume n: "seuils_partie_a cfg = None"
  show "calculer_score_asrs rs cfg
        = calculer_score_asrs rs (cfg \<lparr> seuils_partie_a := Some [2, 3, 2, 2, 3, 3] \<rparr>)"
    by (rule calculer_cong) (simp_all add: seuils_de_def n)
next
  assume n: "seuils_partie_a cfg = None" and p: "\<forall>k\<in>{1..18}. entier_present rs k"
  have s: "seuils_de cfg = [2, 3, 2, 2, 3, 3]" by (simp add: seuils_de_def n)
  have "6 \<le> length (seuils_de cfg)" by (simp add: s)
  from screening_ssi_positifs_aux [OF p this] show
    "\<exists>r. calculer_score_asrs rs cfg = Inr r
        \<and> items_positifs_a r = int (items_positifs {1..6} (seuil_a [2, 3, 2, 2, 3, 3]) rs)"
    by (simp add: s)
next
  fix s
  assume h: "seuils_partie_a cfg = Some s \<and> 6 \<le> length s \<and> (\<forall>k\<in>{1..18}. entier_present rs k)"
  then have s: "seuils_de cfg = s" by (simp add: seuils_de_def)
  have "6 \<le> length (seuils_de cfg)" using h by (simp add: s)
  from screening_ssi_positifs_aux [OF _ this] h show
    "\<exists>r. calculer_score_asrs rs cfg = Inr r
        \<and> items_positifs_a r = int (items_positifs {1..6} (seuil_a s) rs)"
    by (simp add: s)
qed

theorem seuils_par_defaut_witness:
  "(\<exists>r. calculer_score_asrs (reponses_de (replicate 18 2)) config_defaut = Inr r
        \<and> items_positifs_a r = 3)
   \<and> (\<exists>r. calculer_score_asrs (reponses_de (replicate 18 2)) (config_seuils [2, 2, 2, 2, 2, 2]) = Inr r
        \<and> items_positifs_a r = 6)"
proof -
  let ?rs = "reponses_de (replicate 18 2)"
  have p: "\<forall>k\<in>{1..18}. entier_present ?rs k" by code_simp
  have n: "seuils_partie_a config_defaut = None"
    by (simp add: config_defaut_def)
  have s: "seuils_partie_a (config_seuils [2, 2, 2, 2, 2, 2]) = Some [2, 2, 2, 2, 2, 2]
           \<and> 6 \<le> length [2, 2, 2, 2, 2, 2 :: int]"
    by (simp add: config_seuils_def)
  have c3: "items_positifs {1..6} (seuil_a [2, 3, 2, 2, 3, 3]) ?rs = 3" by code_simp
  have c6: "items_positifs {1..6} (seuil_a [2, 2, 2, 2, 2, 2]) ?rs = 6" by code_simp
  from seuils_par_defaut [of config_defaut ?rs] n p obtain r where
    "calculer_score_asrs ?rs config_defaut = Inr r"
    "items_positifs_a r = int (items_positifs {1..6} (seuil_a [2, 3, 2, 2, 3, 3]) ?rs)"
    by blast
  with c3 have a: "\<exists>r. calculer_score_asrs ?rs config_defaut = Inr r \<and> items_positifs_a r = 3"
    by auto
  from seuils_par_defaut [of "config_seuils [2, 2, 2, 2, 2, 2]" ?rs] s p obtain r' where
    "calculer_score_asrs ?rs (config_seuils [2, 2, 2, 2, 2, 2]) = Inr r'"
    "items_positifs_a r' = int (items_positifs {1..6} (seuil_a [2, 2, 2, 2, 2, 2]) ?rs)"
    by blast
  with c6 have b: "\<exists>r. calculer_score_asrs ?rs (config_seuils [2, 2, 2, 2, 2, 2]) = Inr r \<and> items_positifs_a r = 6"
    by auto
  from a b show ?thesis by (rule conjI)
qed

subsection \<open>The two extreme response sets\<close>

text \<open>
  C6. With all 18 items at 4 and the default thresholds, the report has Part A score 24,
  Part B score 48, total 72, 6 Part A positives, 12 Part B positives and
  \<open>screening_positif\<close> true, and the percentage of the row is 100.0. With all 18 items at
  0, the total is 0, \<open>screening_positif\<close> is false and the percentage is 0.0. (At these
  two totals every floating-point operation of the percentage is exact.)
\<close>

theorem exemples_extremes:
  "calculer_score_asrs (reponses_de (replicate 18 4)) config_defaut
     = Inr \<lparr> score_total = 72, score_max = 72, score_partie_a = 24, score_partie_b = 48,
             items_positifs_a = 6, items_positifs_b = 12, screening_positif = True \<rparr>
   \<and> score_pourcentage \<lparr> score_total = 72, score_max = 72, score_partie_a = 24, score_partie_b = 48,
             items_positifs_a = 6, items_positifs_b = 12, screening_positif = True \<rparr> = 100
   \<and> calculer_score_asrs (reponses_de (replicate 18 0)) config_defaut
     = Inr \<lparr> score_total = 0, score_max = 72, score_partie_a = 0, score_partie_b = 0,
             items_positifs_a = 0, items_positifs_b = 0, screening_positif = False \<rparr>
   \<and> score_pourcentage \<lparr> score_total = 0, score_max = 72, score_partie_a = 0, score_partie_b = 0,
             items_positifs_a = 0, items_positifs_b = 0, screening_positif = False \<rparr> = 0"
proof (intro conjI)
  show "calculer_score_asrs (reponses_de (replicate 18 4)) config_defaut
     = Inr \<lparr> score_total = 72, score_max = 72, score_partie_a = 24, score_partie_b = 48,
             items_positifs_a = 6, items_positifs_b = 12, screening_positif = True \<rparr>"
    by code_simp
  show "score_pourcentage \<lparr> score_total = 72, score_max = 72, score_partie_a = 24, score_partie_b = 48,
             items_positifs_a = 6, items_positifs_b = 12, screening_positif = True \<rparr> = 100"
    by (simp add: score_pourcentage_def py_round1_def round_half_even_def)
  show "calculer_score_asrs (reponses_de (replicate 18 0)) config_defaut
     = Inr \<lparr> score_total = 0, score_max = 72, score_partie_a = 0, score_partie_b = 0,
             items_positifs_a = 0, items_positifs_b = 0, screening_positif = False \<rparr>"
    by code_simp
  show "score_pourcentage \<lparr> score_total = 0, score_max = 72, score_partie_a = 0, score_partie_b = 0,
             items_positifs_a = 0, items_positifs_b = 0, screening_positif = False \<rparr> = 0"
    by (simp add: score_pourcentage_def py_round1_def round_half_even_def)
qed

subsection \<open>The legend partitions [0, 72]\<close>



subsection \<open>No validation of the responses\<close>

text \<open>
  The claim C2 (a validation error whenever an item is absent, negative or above the
  scale) fails on the code: with item 7 absent, with item 1 at -1, and with item 1 at 9 on
  the 5-point scale, the calculator returns a report.
\<close>

theorem validation_absente_contre_exemple:
  "calculer_score_asrs (reponses_sauf 7 (replicate 18 1)) config_defaut
     = Inr \<lparr> score_total = 17, score_max = 72, score_partie_a = 6, score_partie_b = 11,
             items_positifs_a = 0, items_positifs_b = 0, screening_positif = False \<rparr>
   \<and> calculer_score_asrs (reponses_de [- 1, 1, 1, 1, 1, 1, 1, 1, 1, 1, 1, 1, 1, 1, 1, 1, 1, 1]) config_defaut
     = Inr \<lparr> score_total = 16, score_max = 72, score_partie_a = 4, score_partie_b = 12,
             items_positifs_a = 0, items_positifs_b = 0, screening_positif = False \<rparr>
   \<and> calculer_score_asrs (reponses_de [9, 1, 1, 1, 1, 1, 1, 1, 1, 1, 1, 1, 1, 1, 1, 1, 1, 1]) config_defaut
     = Inr \<lparr> score_total = 26, score_max = 72, score_partie_a = 14, score_partie_b = 12,
             items_positifs_a = 1, items_positifs_b = 0, screening_positif = False \<rparr>"
  by code_simp

text \<open>
  C2, amended. The calculator validates nothing. For a response mapping in which each item
  is absent or holds an integer, and a threshold list of at least six entries: when some
  item is absent, negative or above the last index of the scale, the calculator still
  returns a report, in which each part's score is the sum of its items as stored, an
  absent item counting for 0.
\<close>

theorem sans_validation:
  assumes ent: "\<forall>k\<in>{1..18}. entier_ou_absent rs k" and len: "6 \<le> length (seuils_de cfg)"
    and inv: "\<exists>k\<in>{1..18}. reponse_invalide cfg rs k"
  shows "\<exists>r. calculer_score_asrs rs cfg = Inr r
           \<and> score_partie_a r = (\<Sum>k = 1..6. valeur rs k)
           \<and> score_partie_b r = (\<Sum>k = 7..18. valeur rs k)"
  using calculer_Inr [OF ent len] by simp

theorem sans_validation_witness:
  "\<exists>r. calculer_score_asrs (reponses_sauf 7 (replicate 18 1)) config_defaut = Inr r
      \<and> score_partie_a r = 6 \<and> score_partie_b r = 11"
proof -
  let ?rs = "reponses_sauf 7 (replicate 18 1)"
  have "list_all (entier_ou_absent ?rs) [1..<19]" by code_simp
  then have p: "\<forall>k\<in>{1..18}. entier_ou_absent ?rs k"
    by (auto simp: list_all_iff)
  have l: "6 \<le> length (seuils_de config_defaut)"
    by (simp add: seuils_de_def config_defaut_def)
  have "reponse_invalide config_defaut ?rs 7" by code_simp
  then have i: "\<exists>k\<in>{1..18}. reponse_invalide config_defaut ?rs k" by auto
  have "sum_list (map (valeur ?rs) [1..<Suc 6]) = 6" by code_simp
  then have sa: "(\<Sum>k = 1..6. valeur ?rs k) = 6"
    unfolding somme_intervalle .
  have "sum_list (map (valeur ?rs) [7..<Suc 18]) = 11" by code_simp
  then have sb: "(\<Sum>k = 7..18. valeur ?rs k) = 11"
    unfolding somme_intervalle .
  from sans_validation [OF p l i] obtain r where
    "calculer_score_asrs ?rs config_defaut = Inr r"
    "score_partie_a r = (\<Sum>k = 1..6. valeur ?rs k)"
    "score_partie_b r = (\<Sum>k = 7..18. valeur ?rs k)"
    by blast
  with sa sb show ?thesis by auto
qed

section \<open>Properties of the questionnaire page\<close>

subsection \<open>Ordered dictionaries\<close>




subsection \<open>The item keys are distinct from each other and from the text keys\<close>









subsection \<open>The dictionary built by the form\<close>





subsection \<open>The store\<close>


lemma connect_Some:
  "fst (connect_to_gsheet ext) = Some sp \<Longrightarrow> snd (connect_to_gsheet ext) = []"
  by (auto simp: connect_to_gsheet_def Let_def split: option.splits sum.splits if_splits)

lemma save_echec:
  "\<not> fst (save_to_gsheet ext sp n data) \<Longrightarrow>
   \<exists>e. fst (snd (save_to_gsheet ext sp n data)) = [St_error (Erreur_sauvegarde e)]"
  by (auto simp: save_to_gsheet_def Let_def split: prod.splits option.splits if_splits)

lemma save_succes:
  "fst (save_to_gsheet ext sp n data) \<Longrightarrow> fst (snd (save_to_gsheet ext sp n data)) = []"
  by (auto simp: save_to_gsheet_def Let_def split: prod.splits option.splits if_splits)

subsection \<open>A submission\<close>





end
